theory Spec2Isabelle
  imports Complex_Main "HOL-Library.Sublist"
begin

text \<open>
  A shallow embedding of the browser client of the interview transcription service:
  the audio worklet that frames and converts the captured samples, the handler that
  folds the recognition results of the backend into the transcript lines and keeps
  the latest summary, and the two handlers that write to the session socket. The
  definitions come first, the properties after them.
\<close>

section \<open>The audio worklet (audio-processor.js)\<close>

subsection \<open>Numbers\<close>

text \<open>
  A sample is an element of a \<open>Float32Array\<close>: a finite binary fraction, a NaN or an
  infinity. \<open>Finite q\<close> stands for the number whose value is the rational \<open>q\<close>.
  Positive and negative zero are both \<open>Finite 0\<close>; the code never tells them apart
  (\<open>-0 < 0\<close> is false and \<open>-0\<close> is stored in an \<open>Int16Array\<close> as 0).
  The arithmetic of the conversion is exact on these inputs: after clamping, a sample
  is a 24-bit significand times a power of two with absolute value at most 1, its
  product with \<open>0x8000\<close> or \<open>0x7FFF\<close> has at most 39 significant bits and so is a
  double, and no rounding takes place. Rational arithmetic therefore computes what
  the program computes.
\<close>

datatype number = Finite rat | NaN | PosInf | NegInf

text \<open>The comparison \<open>a < b\<close>: false as soon as one side is NaN.\<close>

fun less_number :: "number \<Rightarrow> number \<Rightarrow> bool" where
  "less_number (Finite a) (Finite b) = (a < b)"
| "less_number (Finite a) PosInf = True"
| "less_number NegInf (Finite b) = True"
| "less_number NegInf PosInf = True"
| "less_number a b = False"

definition Math_min :: "number \<Rightarrow> number \<Rightarrow> number" where
  "Math_min a b = (if a = NaN \<or> b = NaN then NaN else if less_number b a then b else a)"

definition Math_max :: "number \<Rightarrow> number \<Rightarrow> number" where
  "Math_max a b = (if a = NaN \<or> b = NaN then NaN else if less_number a b then b else a)"

text \<open>The product \<open>a * b\<close>.\<close>

fun times_number :: "number \<Rightarrow> number \<Rightarrow> number" where
  "times_number (Finite a) (Finite b) = Finite (a * b)"
| "times_number NaN b = NaN"
| "times_number a NaN = NaN"
| "times_number (Finite a) PosInf = (if a = 0 then NaN else if 0 < a then PosInf else NegInf)"
| "times_number (Finite a) NegInf = (if a = 0 then NaN else if 0 < a then NegInf else PosInf)"
| "times_number PosInf (Finite b) = (if b = 0 then NaN else if 0 < b then PosInf else NegInf)"
| "times_number NegInf (Finite b) = (if b = 0 then NaN else if 0 < b then NegInf else PosInf)"
| "times_number PosInf PosInf = PosInf"
| "times_number NegInf NegInf = PosInf"
| "times_number PosInf NegInf = NegInf"
| "times_number NegInf PosInf = NegInf"

text \<open>
  Storing a number in an \<open>Int16Array\<close> applies ToInt16: NaN and the infinities become
  0; a finite number is truncated towards zero, reduced modulo \<open>2^16\<close> and read as a
  signed 16-bit integer.
\<close>

definition js_truncate :: "rat \<Rightarrow> int" where
  "js_truncate q = (if q < 0 then - \<lfloor>- q\<rfloor> else \<lfloor>q\<rfloor>)"

definition ToInt16 :: "number \<Rightarrow> int" where
  "ToInt16 v =
     (case v of
        Finite q \<Rightarrow> (let k = js_truncate q mod 65536 in if 32768 \<le> k then k - 65536 else k)
      | NaN \<Rightarrow> 0
      | PosInf \<Rightarrow> 0
      | NegInf \<Rightarrow> 0)"

subsection \<open>\<open>convertTo16BitPCM\<close>\<close>

text \<open>
  The body of the conversion loop, before the store:
  \<open>s = Math.max(-1, Math.min(1, x))\<close>, then \<open>s < 0 ? s * 0x8000 : s * 0x7FFF\<close>
  (\<open>0x8000\<close> is 32768, \<open>0x7FFF\<close> is 32767).
\<close>

definition pcm_value :: "number \<Rightarrow> number" where
  "pcm_value x =
     (let s = Math_max (Finite (- 1)) (Math_min (Finite 1) x)
      in if less_number s (Finite 0) then times_number s (Finite 32768)
         else times_number s (Finite 32767))"

text \<open>The loop \<open>for (let i = 0; i < float32Array.length; i++) pcmData[i] = ...\<close>.\<close>

function convert_loop :: "number list \<Rightarrow> nat \<Rightarrow> int list \<Rightarrow> int list" where
  "convert_loop float32Array i pcmData =
     (if i < length float32Array
      then convert_loop float32Array (i + 1)
             (pcmData[i := ToInt16 (pcm_value (float32Array ! i))])
      else pcmData)"
  by pat_completeness auto
termination
  by (relation "measure (\<lambda>(float32Array, i, pcmData). length float32Array - i)") auto

declare convert_loop.simps [simp del]

text \<open>
  \<open>new Int16Array(n)\<close> holds \<open>n\<close> zeros. The function returns the array's buffer;
  the model returns the Int16 values the buffer holds.
\<close>

definition convertTo16BitPCM :: "number list \<Rightarrow> int list" where
  "convertTo16BitPCM float32Array =
     convert_loop float32Array 0 (replicate (length float32Array) 0)"

subsection \<open>\<open>AudioProcessor.process\<close>\<close>

text \<open>What the worklet posts to the main thread: \<open>{type, source, audio}\<close>.\<close>

record chunk =
  chunk_type :: string
  source :: string
  audio :: "int list"

record AudioProcessor =
  bufferSize :: nat
  buffer :: "number list"
  bufferIndex :: nat

text \<open>The constructor; \<open>new Float32Array(n)\<close> holds \<open>n\<close> zeros.\<close>

definition AudioProcessor_new :: AudioProcessor where
  "AudioProcessor_new =
     \<lparr>bufferSize = 4096, buffer = replicate 4096 (Finite 0), bufferIndex = 0\<rparr>"

text \<open>
  One iteration of the fill loop, on the processor and the list of messages posted so
  far: store the sample at \<open>bufferIndex\<close> and advance the index; when the index has
  reached \<open>bufferSize\<close>, post the converted buffer and reset the index. A store past
  the end of a typed array is ignored, as \<open>list_update\<close> past the end is.
\<close>

fun push :: "string \<Rightarrow> number \<Rightarrow> AudioProcessor \<times> chunk list \<Rightarrow> AudioProcessor \<times> chunk list" where
  "push src x (this, posted) =
     (let this1 = this\<lparr>buffer := (buffer this)[bufferIndex this := x],
                       bufferIndex := bufferIndex this + 1\<rparr>
      in if bufferIndex this1 = bufferSize this1
         then (this1\<lparr>bufferIndex := 0\<rparr>,
               posted @ [\<lparr>chunk_type = ''audio'', source = src,
                           audio = convertTo16BitPCM (buffer this1)\<rparr>])
         else (this1, posted))"

fun fill_loop :: "string \<Rightarrow> number list \<Rightarrow> AudioProcessor \<times> chunk list \<Rightarrow> AudioProcessor \<times> chunk list" where
  "fill_loop src [] s = s"
| "fill_loop src (x # xs) s = fill_loop src xs (push src x s)"

text \<open>
  \<open>inputs\<close> is a list of inputs, an input a list of channels, a channel a list of
  samples. \<open>inputs[0]\<close> and \<open>input[0]\<close> are \<open>undefined\<close> when the list is empty, and
  the call returns at once; a channel, even an empty one, is an object and passes the
  test. The call always returns \<open>true\<close>, which is left out.
\<close>

definition process :: "number list list list \<Rightarrow> AudioProcessor \<times> chunk list \<Rightarrow> AudioProcessor \<times> chunk list" where
  "process inputs s =
     (case inputs of
        [] \<Rightarrow> s
      | input # other_inputs \<Rightarrow>
          (case input of
             [] \<Rightarrow> s
           | inputChannel # other_channels \<Rightarrow>
               (let src = (if 0 < length inputChannel then ''mic'' else ''display'')
                in fill_loop src inputChannel s)))"

text \<open>A fresh processor called on a sequence of \<open>inputs\<close>, one call after the other.\<close>

definition run_process :: "number list list list list \<Rightarrow> AudioProcessor \<times> chunk list" where
  "run_process calls = foldl (\<lambda>s inputs. process inputs s) (AudioProcessor_new, []) calls"

subsection \<open>The earlier, unbuffered \<open>process\<close>\<close>

text \<open>
  The first version of the worklet converts each block with the same loop, written
  inline, and posts it at once; it returns without posting when there is no input, no
  channel or an empty channel. The result is the list of buffers posted by one call.
\<close>

definition process_unbuffered :: "number list list list \<Rightarrow> int list list" where
  "process_unbuffered inputs =
     (case inputs of
        [] \<Rightarrow> []
      | input # other_inputs \<Rightarrow>
          (case input of
             [] \<Rightarrow> []
           | inputChannel # other_channels \<Rightarrow>
               (if length inputChannel = 0 then []
                else [convert_loop inputChannel 0 (replicate (length inputChannel) 0)])))"

subsection \<open>Notions used to state the properties of the worklet\<close>

text \<open>
  The conversion as the specification words it: clamp to \<open>[-1, 1]\<close>, scale by
  \<open>0x8000\<close> below zero and by \<open>0x7FFF\<close> otherwise, truncate. There is no reduction
  modulo \<open>2^16\<close> here.
\<close>

definition spec_pcm :: "number \<Rightarrow> int" where
  "spec_pcm x =
     (case x of
        Finite q \<Rightarrow>
          (let s = max (- 1) (min 1 q)
           in js_truncate (if s < 0 then s * 32768 else s * 32767))
      | NaN \<Rightarrow> 0
      | PosInf \<Rightarrow> 32767
      | NegInf \<Rightarrow> - 32768)"

text \<open>The samples a call ingests: those of the first channel of the first input.\<close>

definition channel0 :: "number list list list \<Rightarrow> number list" where
  "channel0 inputs =
     (case inputs of
        [] \<Rightarrow> []
      | input # other_inputs \<Rightarrow>
          (case input of [] \<Rightarrow> [] | inputChannel # other_channels \<Rightarrow> inputChannel))"

definition ingested :: "number list list list list \<Rightarrow> number list" where
  "ingested calls = concat (map channel0 calls)"

text \<open>
  The invariant of the processor after the samples \<open>hist\<close> have been ingested: the
  buffer has \<open>B\<close> cells, the index is below \<open>B\<close>, the cells below the index hold the
  last samples of \<open>hist\<close>, the frames posted so far are the conversion of all samples
  before those, and every frame has \<open>B\<close> values.
\<close>

definition feeds :: "nat \<Rightarrow> number list \<Rightarrow> AudioProcessor \<times> chunk list \<Rightarrow> bool" where
  "feeds B hist s =
     (bufferSize (fst s) = B \<and> length (buffer (fst s)) = B \<and> bufferIndex (fst s) < B \<and>
      bufferIndex (fst s) \<le> length hist \<and>
      take (bufferIndex (fst s)) (buffer (fst s)) = drop (length hist - bufferIndex (fst s)) hist \<and>
      concat (map audio (snd s)) =
        map spec_pcm (take (length hist - bufferIndex (fst s)) hist) \<and>
      map (\<lambda>c. length (audio c)) (snd s) = replicate (length (snd s)) B)"

text \<open>Every chunk posted so far carries the source tag \<open>src\<close>.\<close>

definition tagged :: "string \<Rightarrow> AudioProcessor \<times> chunk list \<Rightarrow> bool" where
  "tagged src s = (map source (snd s) = replicate (length (snd s)) src)"

section \<open>Messages received from the backend (App.jsx, \<open>ws.onmessage\<close>)\<close>

text \<open>
  The handler parses every incoming frame with \<open>JSON.parse\<close> and then reads the
  properties \<open>type\<close>, \<open>is_final\<close>, \<open>isFinal\<close>, \<open>text\<close>, \<open>speaker\<close> and
  \<open>timestamp\<close> of the parsed object. The record below holds exactly what the code
  reads. \<open>is_final\<close> and \<open>isFinal\<close> are two different property names in the source:
  the first is read from the incoming object to choose the branch, the second is read
  from the objects already stored in the line list. Both are kept as the truthiness of
  the property (a property that is absent reads as \<open>undefined\<close>, which is falsy).
  \<open>msg_type\<close> is \<open>None\<close> when the property is absent or not a string.
\<close>

record data =
  msg_type :: "string option"
  is_final :: bool
  isFinal :: bool
  msg_text :: string
  speaker :: string
  timestamp :: string

text \<open>
  What \<open>ev.data\<close> can be: a text that \<open>JSON.parse\<close> rejects (it throws a
  SyntaxError), the text \<open>null\<close> (the property access \<open>data.type\<close> then throws a
  TypeError), or an object. A parsed number, string, boolean or array has none of the
  properties the handler reads with a truthy value; it behaves as an object without them.
\<close>

datatype payload = Unparsable | JsonNull | Parsed data

datatype handler_error = SyntaxError | TypeError

text \<open>The two pieces of React state the handler updates.\<close>

record app =
  lines :: "data list"
  currentSummary :: "data option"

definition App_init :: app where
  "App_init = \<lparr>lines = [], currentSummary = None\<rparr>"

text \<open>
  The updater passed to \<open>setLines\<close> for a final result:
  \<open>prev => [...prev.filter(line => line.isFinal), data]\<close>.
\<close>

definition final_update :: "data \<Rightarrow> data list \<Rightarrow> data list" where
  "final_update d prev = filter isFinal prev @ [d]"

text \<open>
  The updater for an interim result. \<open>prev[prev.length - 1]\<close> is \<open>undefined\<close> on the
  empty list, so \<open>lastLine && !lastLine.isFinal\<close> is false there.
\<close>

definition interim_update :: "data \<Rightarrow> data list \<Rightarrow> data list" where
  "interim_update d prev =
     (if prev \<noteq> [] \<and> \<not> isFinal (last prev)
      then prev[length prev - 1 := d]
      else prev @ [d])"

definition ws_onmessage :: "app \<Rightarrow> payload \<Rightarrow> handler_error + app" where
  "ws_onmessage st p =
     (case p of
        Unparsable \<Rightarrow> Inl SyntaxError
      | JsonNull \<Rightarrow> Inl TypeError
      | Parsed d \<Rightarrow>
          Inr (if msg_type d = Some ''summary'' then st\<lparr>currentSummary := Some d\<rparr>
               else if msg_type d = Some ''transcript'' then
                 (if is_final d
                  then st\<lparr>lines := final_update d (lines st)\<rparr>
                  else st\<lparr>lines := interim_update d (lines st)\<rparr>)
               else st))"

text \<open>
  An exception thrown inside the handler leaves the React state as it was; the next
  frame is handled as usual.
\<close>

definition deliver :: "app \<Rightarrow> payload \<Rightarrow> app" where
  "deliver st p = (case ws_onmessage st p of Inl e \<Rightarrow> st | Inr st' \<Rightarrow> st')"

definition run :: "app \<Rightarrow> payload list \<Rightarrow> app" where
  "run st ps = foldl deliver st ps"

text \<open>A transcript result as the handler sees it.\<close>

definition transcript :: "bool \<Rightarrow> bool \<Rightarrow> string \<Rightarrow> data" where
  "transcript fin flag t =
     \<lparr>msg_type = Some ''transcript'', is_final = fin, isFinal = flag,
      msg_text = t, speaker = '''', timestamp = ''''\<rparr>"

text \<open>The summary frames among a sequence of frames, in arrival order.\<close>

fun summaries :: "payload list \<Rightarrow> data list" where
  "summaries [] = []"
| "summaries (Parsed d # ps) =
     (if msg_type d = Some ''summary'' then d # summaries ps else summaries ps)"
| "summaries (p # ps) = summaries ps"

text \<open>
  Invariant of the line list used below: every entry but the last carries a truthy
  \<open>isFinal\<close>.
\<close>

definition closed_prefix :: "data list \<Rightarrow> bool" where
  "closed_prefix ls = (filter isFinal (butlast ls) = butlast ls)"

section \<open>The session channel (App.jsx, \<open>ws.onopen\<close> and \<open>proc.port.onmessage\<close>)\<close>

text \<open>
  The objects handed to \<open>JSON.stringify\<close>. An \<open>ArrayBuffer\<close> is kept as the list of
  the Int16 values it holds. The handlers below take the serialiser as a parameter;
  \<open>JSON.stringify\<close> itself is \<open>SerializeJSONProperty\<close>, defined after them.
\<close>

datatype json = JString string | JBuffer "int list" | JObject "(string \<times> json) list"

fun members :: "json \<Rightarrow> (string \<times> json) list" where
  "members (JObject kvs) = kvs"
| "members j = []"

text \<open>The \<open>speakers\<close> state of the component: the two names typed into the setup form.\<close>

record speakers =
  panelist :: string
  candidate :: string

text \<open>
  The socket as the handlers use it: its \<open>readyState\<close> (0 CONNECTING, 1 OPEN,
  2 CLOSING, 3 CLOSED) and the texts accepted by \<open>send\<close>, oldest first.
  \<open>WebSocket.send\<close> throws while the socket is connecting, transmits when it is
  open and drops the text when it is closing or closed.
\<close>

record websocket =
  readyState :: nat
  sent :: "string list"

datatype ws_error = InvalidStateError

definition ws_send :: "string \<Rightarrow> websocket \<Rightarrow> ws_error + websocket" where
  "ws_send m ws =
     (if readyState ws = 0 then Inl InvalidStateError
      else if readyState ws = 1 then Inr (ws\<lparr>sent := sent ws @ [m]\<rparr>)
      else Inr ws)"

definition setup_message :: "speakers \<Rightarrow> json" where
  "setup_message sp =
     JObject [(''type'', JString ''setup''),
              (''speakers'', JObject [(''panelist'', JString (panelist sp)),
                                      (''candidate'', JString (candidate sp))])]"

definition ws_onopen :: "(json \<Rightarrow> string) \<Rightarrow> speakers \<Rightarrow> websocket \<Rightarrow> ws_error + websocket" where
  "ws_onopen JSON_stringify sp ws = ws_send (JSON_stringify (setup_message sp)) ws"

text \<open>The object built from a chunk of the worklet: \<open>{type: "audio", source, data}\<close>.\<close>

definition audio_message :: "chunk \<Rightarrow> json" where
  "audio_message c =
     JObject [(''type'', JString ''audio''),
              (''source'', JString (source c)),
              (''data'', JBuffer (audio c))]"

definition port_onmessage :: "(json \<Rightarrow> string) \<Rightarrow> chunk \<Rightarrow> websocket \<Rightarrow> ws_error + websocket" where
  "port_onmessage JSON_stringify c ws =
     (if readyState ws = 1
      then ws_send (JSON_stringify (audio_message c)) ws
      else Inr ws)"

text \<open>
  A chunk arrives while the socket is in some state \<open>rs\<close>, which the browser sets
  between events. An exception in the handler would leave the socket as it is.
\<close>

definition arrive :: "(json \<Rightarrow> string) \<Rightarrow> websocket \<Rightarrow> nat \<times> chunk \<Rightarrow> websocket" where
  "arrive JSON_stringify ws a =
     (case port_onmessage JSON_stringify (snd a) (ws\<lparr>readyState := fst a\<rparr>) of
        Inl e \<Rightarrow> ws\<lparr>readyState := fst a\<rparr>
      | Inr ws' \<Rightarrow> ws')"

text \<open>
  \<open>JSON.stringify\<close> on these objects, after the operations of the language standard:
  a string is written between double quotes with its double quotes, backslashes and
  control characters escaped; an object is written as its enumerable own properties,
  \<open>"name":value\<close> separated by commas between braces, without spaces. An
  \<open>ArrayBuffer\<close> is an object with no enumerable own property and no \<open>toJSON\<close>
  method, so it is written \<open>{}\<close> whatever it holds. The strings of this file are
  ASCII. \<open>CHR 0x22\<close> is the double quote and \<open>CHR 0x5C\<close> the backslash.
\<close>

definition hex_digit :: "nat \<Rightarrow> char" where
  "hex_digit n = ''0123456789abcdef'' ! (n mod 16)"

definition escape_char :: "char \<Rightarrow> string" where
  "escape_char c =
     (if c = CHR 0x22 then [CHR 0x5C, CHR 0x22]
      else if c = CHR 0x5C then [CHR 0x5C, CHR 0x5C]
      else if c = CHR 0x08 then [CHR 0x5C, CHR ''b'']
      else if c = CHR 0x09 then [CHR 0x5C, CHR ''t'']
      else if c = CHR 0x0A then [CHR 0x5C, CHR ''n'']
      else if c = CHR 0x0C then [CHR 0x5C, CHR ''f'']
      else if c = CHR 0x0D then [CHR 0x5C, CHR ''r'']
      else if (of_char c :: nat) < 32
        then [CHR 0x5C, CHR ''u'', CHR ''0'', CHR ''0'',
              hex_digit (of_char c div 16), hex_digit (of_char c)]
      else [c])"

definition QuoteJSONString :: "string \<Rightarrow> string" where
  "QuoteJSONString s = [CHR 0x22] @ concat (map escape_char s) @ [CHR 0x22]"

fun join_commas :: "string list \<Rightarrow> string" where
  "join_commas [] = []"
| "join_commas [x] = x"
| "join_commas (x # y # ys) = x @ '','' @ join_commas (y # ys)"

fun SerializeJSONProperty :: "json \<Rightarrow> string"
  and SerializeJSONMembers :: "(string \<times> json) list \<Rightarrow> string list" where
  "SerializeJSONProperty (JString s) = QuoteJSONString s"
| "SerializeJSONProperty (JBuffer b) = ''{}''"
| "SerializeJSONProperty (JObject kvs) = ''{'' @ join_commas (SerializeJSONMembers kvs) @ ''}''"
| "SerializeJSONMembers [] = []"
| "SerializeJSONMembers ((k, v) # kvs) =
     (QuoteJSONString k @ '':'' @ SerializeJSONProperty v) # SerializeJSONMembers kvs"

section \<open>The conversion to 16-bit PCM\<close>

lemma truncate_bounds_neg:
  "- 1 \<le> q \<Longrightarrow> q < 0 \<Longrightarrow>
   - 32768 \<le> js_truncate (q * 32768) \<and> js_truncate (q * 32768) \<le> 0"
  unfolding js_truncate_def
  by (auto simp: le_floor_iff floor_le_iff)

lemma truncate_bounds_pos:
  "0 \<le> q \<Longrightarrow> q \<le> 1 \<Longrightarrow>
   0 \<le> js_truncate (q * 32767) \<and> js_truncate (q * 32767) \<le> 32767"
  unfolding js_truncate_def
  by (auto simp: le_floor_iff floor_le_iff)

lemma js_truncate_int: "js_truncate (of_int k) = k"
  by (simp add: js_truncate_def)

text \<open>Reading a value of the signed 16-bit range back from its residue.\<close>

lemma wrap16:
  "- 32768 \<le> (k::int) \<Longrightarrow> k \<le> 32767 \<Longrightarrow>
   (if 32768 \<le> k mod 65536 then k mod 65536 - 65536 else k mod 65536) = k"
proof (cases "0 \<le> k")
  case True
  assume "k \<le> 32767"
  with True have "k mod 65536 = k" by simp
  with \<open>k \<le> 32767\<close> show ?thesis by simp
next
  case False
  assume "- 32768 \<le> k"
  with False have "(k + 65536) mod 65536 = k + 65536"
    by (intro mod_pos_pos_trivial) simp_all
  then have "k mod 65536 = k + 65536" by simp
  with \<open>- 32768 \<le> k\<close> show ?thesis by simp
qed

lemma ToInt16_small:
  "- 32768 \<le> js_truncate q \<Longrightarrow> js_truncate q \<le> 32767 \<Longrightarrow>
   ToInt16 (Finite q) = js_truncate q"
  using wrap16[of "js_truncate q"] by (simp add: ToInt16_def Let_def)

lemma ToInt16_max: "ToInt16 (Finite 32767) = 32767"
  using ToInt16_small[of 32767] js_truncate_int[of 32767] by simp

lemma ToInt16_min: "ToInt16 (Finite (- 32768)) = - 32768"
  using ToInt16_small[of "- 32768"] js_truncate_int[of "- 32768"] by simp

lemma pcm_value_Finite:
  "pcm_value (Finite q) =
     (if q < - 1 then Finite (- 32768) else if 1 < q then Finite 32767
      else if q < 0 then Finite (q * 32768) else Finite (q * 32767))"
  by (simp add: pcm_value_def Math_min_def Math_max_def Let_def)

lemma spec_pcm_Finite:
  "spec_pcm (Finite q) =
     (if q < - 1 then - 32768 else if 1 < q then 32767
      else if q < 0 then js_truncate (q * 32768) else js_truncate (q * 32767))"
proof -
  have lo: "js_truncate (- 32768) = - 32768"
    using js_truncate_int[of "- 32768"] by simp
  have hi: "js_truncate 32767 = 32767"
    using js_truncate_int[of 32767] by simp
  show ?thesis
    by (simp add: spec_pcm_def Let_def max_def min_def lo hi)
qed

lemma spec_pcm_range: "- 32768 \<le> spec_pcm x \<and> spec_pcm x \<le> 32767"
proof (cases x)
  case (Finite q)
  show ?thesis
    using truncate_bounds_neg[of q] truncate_bounds_pos[of q]
    by (auto simp: spec_pcm_Finite Finite)
qed (simp_all add: spec_pcm_def)

lemma pcm_value_spec: "ToInt16 (pcm_value x) = spec_pcm x"
proof (cases x)
  case (Finite q)
  consider "q < - 1" | "1 < q" | "- 1 \<le> q" "q < 0" | "0 \<le> q" "q \<le> 1"
    by linarith
  then show ?thesis
  proof cases
    case 1
    then show ?thesis
      by (simp add: Finite pcm_value_Finite spec_pcm_Finite ToInt16_min)
  next
    case 2
    then show ?thesis
      by (simp add: Finite pcm_value_Finite spec_pcm_Finite ToInt16_max)
  next
    case 3
    with truncate_bounds_neg[of q]
    have "ToInt16 (Finite (q * 32768)) = js_truncate (q * 32768)"
      by (intro ToInt16_small) simp_all
    with 3 show ?thesis
      by (simp add: Finite pcm_value_Finite spec_pcm_Finite)
  next
    case 4
    with truncate_bounds_pos[of q]
    have "ToInt16 (Finite (q * 32767)) = js_truncate (q * 32767)"
      by (intro ToInt16_small) simp_all
    with 4 show ?thesis
      by (simp add: Finite pcm_value_Finite spec_pcm_Finite)
  qed
next
  case NaN
  then show ?thesis
    by (simp add: spec_pcm_def pcm_value_def Math_min_def Math_max_def ToInt16_def)
next
  case PosInf
  then show ?thesis
    by (simp add: spec_pcm_def pcm_value_def Math_min_def Math_max_def Let_def ToInt16_max)
next
  case NegInf
  then show ?thesis
    by (simp add: spec_pcm_def pcm_value_def Math_min_def Math_max_def Let_def ToInt16_min)
qed

text \<open>The loop fills the cells from \<open>i\<close> on and leaves those before \<open>i\<close> alone.\<close>

lemma convert_loop_eq:
  "i \<le> length fa \<Longrightarrow> length pcm = length fa \<Longrightarrow>
   convert_loop fa i pcm = take i pcm @ map spec_pcm (drop i fa)"
proof (induction fa i pcm rule: convert_loop.induct)
  case (1 fa i pcm)
  show ?case
  proof (cases "i < length fa")
    case True
    have "convert_loop fa i pcm =
          convert_loop fa (i + 1) (pcm[i := ToInt16 (pcm_value (fa ! i))])"
      using True by (subst convert_loop.simps) simp
    also have "\<dots> = take (i + 1) (pcm[i := spec_pcm (fa ! i)]) @ map spec_pcm (drop (i + 1) fa)"
      using "1.IH"[OF True] True "1.prems" by (simp add: pcm_value_spec)
    also have "\<dots> = take i pcm @ map spec_pcm (drop i fa)"
      using True "1.prems" by (simp add: take_Suc_conv_app_nth Cons_nth_drop_Suc[symmetric])
    finally show ?thesis .
  next
    case False
    with "1.prems" show ?thesis by (subst convert_loop.simps) simp
  qed
qed

lemma convertTo16BitPCM_map: "convertTo16BitPCM fa = map spec_pcm fa"
  by (simp add: convertTo16BitPCM_def convert_loop_eq)

lemma process_unbuffered_map: "concat (process_unbuffered inputs) = map spec_pcm (channel0 inputs)"
  by (simp add: process_unbuffered_def channel0_def convert_loop_eq split: list.splits)

text \<open>
  Claim C6. For every array of samples, \<open>convertTo16BitPCM\<close> returns, sample by
  sample, the clamped and scaled value truncated towards zero (the reduction modulo
  \<open>2^16\<close> of the store never changes it); a sample below \<open>-1\<close> gives \<open>-32768\<close>, one
  above \<open>1\<close> gives \<open>32767\<close>; every output lies in \<open>[-32768, 32767]\<close>; the output has
  the length of the input. The inline conversion of the unbuffered worklet posts the
  same values.
\<close>

theorem C6_pcm_conversion:
  "convertTo16BitPCM xs = map spec_pcm xs \<and>
   spec_pcm (Finite q) =
     (if q < - 1 then - 32768 else if 1 < q then 32767
      else if q < 0 then js_truncate (q * 32768) else js_truncate (q * 32767)) \<and>
   list_all (\<lambda>v. - 32768 \<le> v \<and> v \<le> 32767) (convertTo16BitPCM xs) \<and>
   length (convertTo16BitPCM xs) = length xs \<and>
   concat (process_unbuffered inputs) = map spec_pcm (channel0 inputs)"
proof -
  have "list_all (\<lambda>v. - 32768 \<le> v \<and> v \<le> 32767) (map spec_pcm xs)"
    by (induction xs) (simp_all add: spec_pcm_range)
  then show ?thesis
    by (simp add: convertTo16BitPCM_map spec_pcm_Finite process_unbuffered_map)
qed

theorem C6_witness:
  "convertTo16BitPCM [Finite (1 / 2), Finite (- 1 / 2), Finite 2, Finite (- 3), NaN,
                      Finite (1 / 3), Finite (- 1 / 65536)] =
     [16383, - 16384, 32767, - 32768, 0, 10922, 0]"
proof -
  have "map spec_pcm [Finite (1 / 2), Finite (- 1 / 2), Finite 2, Finite (- 3), NaN,
                      Finite (1 / 3), Finite (- 1 / 65536)] =
        [16383, - 16384, 32767, - 32768, 0, 10922, 0]"
    by code_simp
  with C6_pcm_conversion
          [of "[Finite (1 / 2), Finite (- 1 / 2), Finite 2, Finite (- 3), NaN,
                Finite (1 / 3), Finite (- 1 / 65536)]"]
  show ?thesis by simp
qed

section \<open>Framing of the ingested samples\<close>

lemma push_feeds:
  assumes "feeds B hist s"
  shows "feeds B (hist @ [x]) (push src x s)"
proof -
  obtain this posted where s: "s = (this, posted)" by (cases s)
  define k where "k = bufferIndex this"
  define n where "n = length hist"
  from assms have B: "bufferSize this = B" and len: "length (buffer this) = B"
    and kB: "k < B" and kn: "k \<le> n"
    and pend: "take k (buffer this) = drop (n - k) hist"
    and emitted: "concat (map audio posted) = map spec_pcm (take (n - k) hist)"
    and sizes: "map (\<lambda>c. length (audio c)) posted = replicate (length posted) B"
    by (simp_all add: feeds_def s k_def n_def)
  have written: "take (Suc k) ((buffer this)[k := x]) = drop (n - k) hist @ [x]"
    using kB len pend by (simp add: take_Suc_conv_app_nth)
  show ?thesis
  proof (cases "Suc k = B")
    case True
    define frame where "frame = convertTo16BitPCM ((buffer this)[k := x])"
    have res: "push src x s =
        (this\<lparr>buffer := (buffer this)[k := x], bufferIndex := 0\<rparr>,
         posted @ [\<lparr>chunk_type = ''audio'', source = src, audio = frame\<rparr>])"
      using True B by (simp add: s k_def frame_def Let_def)
    have frame_len: "length frame = B"
      by (simp add: frame_def convertTo16BitPCM_map len)
    from written True len have "(buffer this)[k := x] = drop (n - k) hist @ [x]"
      by simp
    then have frame_eq: "frame = map spec_pcm (drop (n - k) hist) @ [spec_pcm x]"
      by (simp add: frame_def convertTo16BitPCM_map)
    have "concat (map audio posted) @ frame = map spec_pcm (hist @ [x])"
      unfolding emitted frame_eq
      by (metis append.assoc append_take_drop_id list.simps(8,9) map_append)
    with kB len sizes frame_len show ?thesis
      by (simp add: feeds_def res B n_def replicate_append_same)
  next
    case False
    with kB have "Suc k < B" by simp
    with False B len kn emitted sizes written show ?thesis
      by (simp add: feeds_def s k_def[symmetric] n_def[symmetric] Let_def Suc_diff_le)
  qed
qed

lemma fill_loop_feeds:
  "feeds B hist s \<Longrightarrow> feeds B (hist @ xs) (fill_loop src xs s)"
proof (induction xs arbitrary: hist s)
  case Nil
  then show ?case by simp
next
  case (Cons x xs)
  from Cons.prems have "feeds B (hist @ [x]) (push src x s)"
    by (rule push_feeds)
  then have "feeds B ((hist @ [x]) @ xs) (fill_loop src xs (push src x s))"
    by (rule Cons.IH)
  then show ?case by simp
qed

lemma process_feeds:
  "feeds B hist s \<Longrightarrow> feeds B (hist @ channel0 inputs) (process inputs s)"
  by (simp add: process_def channel0_def fill_loop_feeds split: list.splits)

lemma feeds_new: "feeds 4096 [] (AudioProcessor_new, [])"
  by (simp add: feeds_def AudioProcessor_new_def)

lemma run_process_snoc:
  "run_process (calls @ [inputs]) = process inputs (run_process calls)"
  by (simp add: run_process_def)

lemma run_process_feeds: "feeds 4096 (ingested calls) (run_process calls)"
proof (induction calls rule: rev_induct)
  case Nil
  show ?case by (simp add: run_process_def ingested_def feeds_new)
next
  case (snoc inputs calls)
  then have "feeds 4096 (ingested calls @ channel0 inputs) (process inputs (run_process calls))"
    by (rule process_feeds)
  then show ?case by (simp add: run_process_snoc ingested_def)
qed

lemma feeds_count:
  assumes "feeds B hist s"
  shows "length hist = B * length (snd s) + bufferIndex (fst s)"
proof -
  from assms have kn: "bufferIndex (fst s) \<le> length hist"
    and emitted: "concat (map audio (snd s)) =
        map spec_pcm (take (length hist - bufferIndex (fst s)) hist)"
    and sizes: "map (\<lambda>c. length (audio c)) (snd s) = replicate (length (snd s)) B"
    by (simp_all add: feeds_def)
  have "length (concat (map audio (snd s))) = sum_list (map (\<lambda>c. length (audio c)) (snd s))"
    by (simp add: length_concat comp_def)
  also have "\<dots> = B * length (snd s)"
    by (simp add: sizes sum_list_replicate)
  finally have "B * length (snd s) = length hist - bufferIndex (fst s)"
    by (simp add: emitted)
  with kn show ?thesis by simp
qed

lemma feeds_index:
  assumes "feeds B hist s"
  shows "bufferIndex (fst s) = length hist mod B" and "length (snd s) = length hist div B"
proof -
  from assms have "bufferIndex (fst s) < B" by (simp add: feeds_def)
  with feeds_count[OF assms] show "bufferIndex (fst s) = length hist mod B"
    and "length (snd s) = length hist div B"
    by simp_all
qed

text \<open>
  Claim C5. Let a fresh processor be called on any sequence of inputs, and let \<open>n\<close> be
  the number of samples ingested. The frames posted, one after the other, are the
  conversion of the first \<open>n - n mod 4096\<close> ingested samples, in order, each once;
  every frame holds 4096 values and there are \<open>n div 4096\<close> of them; the remaining
  \<open>n mod 4096\<close> samples are the ones held in the buffer below \<open>bufferIndex\<close>.
\<close>

theorem C5_frames_partition_input:
  "concat (map audio (snd (run_process calls))) =
     convertTo16BitPCM (take (length (ingested calls) - length (ingested calls) mod 4096)
                             (ingested calls)) \<and>
   map (\<lambda>c. length (audio c)) (snd (run_process calls)) =
     replicate (length (ingested calls) div 4096) 4096 \<and>
   bufferIndex (fst (run_process calls)) = length (ingested calls) mod 4096 \<and>
   take (bufferIndex (fst (run_process calls))) (buffer (fst (run_process calls))) =
     drop (length (ingested calls) - length (ingested calls) mod 4096) (ingested calls)"
  using run_process_feeds[of calls] feeds_index[OF run_process_feeds[of calls]]
  by (simp add: feeds_def convertTo16BitPCM_map)

text \<open>One call with 4097 samples of value 1: one full frame is posted, one sample stays.\<close>

lemma ingested_one_call:
  "ingested [[[replicate 4097 (Finite 1)]]] = replicate 4097 (Finite 1)"
  by (simp add: ingested_def channel0_def)

theorem C5_witness:
  "concat (map audio (snd (run_process [[[replicate 4097 (Finite 1)]]]))) =
     replicate 4096 32767 \<and>
   map (\<lambda>c. length (audio c)) (snd (run_process [[[replicate 4097 (Finite 1)]]])) = [4096] \<and>
   bufferIndex (fst (run_process [[[replicate 4097 (Finite 1)]]])) = 1"
proof -
  have one: "spec_pcm (Finite 1) = 32767"
    by (simp add: spec_pcm_def js_truncate_def)
  show ?thesis
    using C5_frames_partition_input[of "[[[replicate 4097 (Finite 1)]]]"]
    by (simp add: ingested_one_call convertTo16BitPCM_map one)
qed

section \<open>The source tag of the posted chunks\<close>

lemma push_tagged: "tagged src s \<Longrightarrow> tagged src (push src x s)"
  by (cases s) (simp add: tagged_def Let_def replicate_append_same)

lemma fill_loop_tagged: "tagged src s \<Longrightarrow> tagged src (fill_loop src xs s)"
  by (induction xs arbitrary: s) (simp_all add: push_tagged)

lemma process_tagged: "tagged ''mic'' s \<Longrightarrow> tagged ''mic'' (process inputs s)"
proof (cases "channel0 inputs = []")
  case True
  then have "process inputs s = s"
    by (auto simp: process_def channel0_def split: list.splits)
  moreover assume "tagged ''mic'' s"
  ultimately show ?thesis by simp
next
  case False
  then have "process inputs s = fill_loop ''mic'' (channel0 inputs) s"
    by (auto simp: process_def channel0_def split: list.splits)
  moreover assume "tagged ''mic'' s"
  ultimately show ?thesis by (simp add: fill_loop_tagged)
qed

lemma run_process_tagged: "tagged ''mic'' (run_process calls)"
proof (induction calls rule: rev_induct)
  case Nil
  show ?case by (simp add: run_process_def tagged_def)
next
  case (snoc inputs calls)
  then show ?case by (simp add: run_process_snoc process_tagged)
qed

text \<open>
  Claim C9. Whatever the calls, every chunk posted by the worklet carries the source
  tag \<open>mic\<close>; none carries \<open>display\<close>.
\<close>

theorem C9_every_chunk_tagged_mic:
  "map source (snd (run_process calls)) = replicate (length (snd (run_process calls))) ''mic'' \<and>
   ''display'' \<notin> set (map source (snd (run_process calls)))"
proof -
  have mic: "map source (snd (run_process calls)) =
             replicate (length (snd (run_process calls))) ''mic''"
    using run_process_tagged[of calls] by (simp add: tagged_def)
  have "''display'' \<notin> set (replicate (length (snd (run_process calls))) ''mic'')"
    by simp
  with mic show ?thesis by simp
qed

theorem C9_witness:
  "map source (snd (run_process [[[replicate 4097 (Finite 1)]]])) = [''mic'']"
proof -
  have "length (snd (run_process [[[replicate 4097 (Finite 1)]]])) = 1"
    using feeds_index(2)[OF run_process_feeds[of "[[[replicate 4097 (Finite 1)]]]"]]
    by (simp add: ingested_one_call)
  with C9_every_chunk_tagged_mic[of "[[[replicate 4097 (Finite 1)]]]"]
  show ?thesis by simp
qed

section \<open>The line list never holds two open entries\<close>

lemma closed_prefix_final: "closed_prefix (final_update d prev)"
  by (simp add: closed_prefix_def final_update_def)

lemma closed_prefix_interim:
  "closed_prefix prev \<Longrightarrow> closed_prefix (interim_update d prev)"
proof (cases "prev = []")
  case True
  then show ?thesis by (simp add: closed_prefix_def interim_update_def)
next
  case False
  assume cp: "closed_prefix prev"
  from False obtain ys y where prev: "prev = ys @ [y]"
    by (metis append_butlast_last_id)
  from cp prev have ys: "filter isFinal ys = ys"
    by (simp add: closed_prefix_def)
  show ?thesis
    using ys by (simp add: prev closed_prefix_def interim_update_def butlast_append)
qed

lemma closed_prefix_deliver:
  "closed_prefix (lines st) \<Longrightarrow> closed_prefix (lines (deliver st p))"
  by (cases p)
     (simp_all add: deliver_def ws_onmessage_def closed_prefix_final closed_prefix_interim)

lemma closed_prefix_run:
  "closed_prefix (lines st) \<Longrightarrow> closed_prefix (lines (run st ps))"
  unfolding run_def
  by (induction ps arbitrary: st) (simp_all add: closed_prefix_deliver)

lemma closed_prefix_open_count:
  "closed_prefix ls \<Longrightarrow> length (filter (\<lambda>l. \<not> isFinal l) ls) \<le> 1"
proof (cases "ls = []")
  case True
  then show ?thesis by simp
next
  case False
  assume cp: "closed_prefix ls"
  from False obtain ys y where ls: "ls = ys @ [y]"
    by (metis append_butlast_last_id)
  from cp ls have "filter isFinal ys = ys"
    by (simp add: closed_prefix_def)
  then have "filter (\<lambda>l. \<not> isFinal l) ys = []"
    by (metis filter_False filter_id_conv)
  then show ?thesis by (simp add: ls)
qed

text \<open>
  Claim C2. Starting from the empty line list, after any sequence of frames (interim
  results, final results, summaries, anything else) the number of entries whose
  \<open>isFinal\<close> is falsy is at most one.
\<close>

theorem C2_at_most_one_open:
  "length (filter (\<lambda>l. \<not> isFinal l) (lines (run App_init ps))) \<le> 1"
proof -
  have "closed_prefix (lines App_init)"
    by (simp add: closed_prefix_def App_init_def)
  then have "closed_prefix (lines (run App_init ps))"
    by (rule closed_prefix_run)
  then show ?thesis
    by (rule closed_prefix_open_count)
qed

section \<open>Steps of the transcript handler\<close>

lemma deliver_transcript:
  "msg_type d = Some ''transcript'' \<Longrightarrow>
   lines (deliver st (Parsed d)) =
     (if is_final d then final_update d (lines st) else interim_update d (lines st))"
  by (simp add: deliver_def ws_onmessage_def)

lemma run_snoc: "run st (ps @ [p]) = deliver (run st ps) p"
  by (simp add: run_def)

text \<open>
  Claim C4. An interim result that arrives while the last entry of the line list is
  open (its \<open>isFinal\<close> is falsy) overwrites that entry and leaves the length of the
  list as it was.
\<close>

theorem C4_interim_overwrites_open_entry:
  assumes "msg_type d = Some ''transcript''" and "\<not> is_final d"
    and "lines st \<noteq> []" and "\<not> isFinal (last (lines st))"
  shows "length (lines (deliver st (Parsed d))) = length (lines st) \<and>
         lines (deliver st (Parsed d)) = butlast (lines st) @ [d]"
proof -
  from assms(3) obtain ys y where ls: "lines st = ys @ [y]"
    by (metis append_butlast_last_id)
  from assms(1,2) have "lines (deliver st (Parsed d)) = interim_update d (lines st)"
    by (simp add: deliver_transcript)
  also from assms(4) have "\<dots> = ys @ [d]"
    by (simp add: interim_update_def ls)
  finally show ?thesis
    by (simp add: ls)
qed

theorem C4_witness:
  "msg_type (transcript False False ''Hello'') = Some ''transcript'' \<and>
   \<not> is_final (transcript False False ''Hello'') \<and>
   lines \<lparr>lines = [transcript True True ''Hi'', transcript False False ''Hel''],
          currentSummary = None\<rparr> \<noteq> [] \<and>
   length (lines (deliver \<lparr>lines = [transcript True True ''Hi'', transcript False False ''Hel''],
                          currentSummary = None\<rparr>
                         (Parsed (transcript False False ''Hello'')))) = 2 \<and>
   lines (deliver \<lparr>lines = [transcript True True ''Hi'', transcript False False ''Hel''],
                  currentSummary = None\<rparr>
                 (Parsed (transcript False False ''Hello''))) =
     [transcript True True ''Hi'', transcript False False ''Hello'']"
  using C4_interim_overwrites_open_entry
          [of "transcript False False ''Hello''"
              "\<lparr>lines = [transcript True True ''Hi'', transcript False False ''Hel''],
                currentSummary = None\<rparr>"]
  by (simp add: transcript_def)

section \<open>Final results are stored without the flag the list is read by\<close>

text \<open>
  The final branch stores the received object as it is. The list is then read through
  \<open>isFinal\<close>, a property the branch test never looked at. The earlier versions of the
  handler (the ones that read \<open>data.transcript\<close>) build the stored line themselves,
  with \<open>isFinal: true\<close> for a final result and \<open>isFinal: false\<close> for an interim one.
  What follows holds whatever the frames carry: entries whose \<open>isFinal\<close> is truthy
  are never dropped, changed or reordered by a step.
\<close>

lemma flagged_entries_kept:
  "prefix (filter isFinal (lines st)) (filter isFinal (lines (deliver st p)))"
proof (cases p)
  case (Parsed d)
  show ?thesis
  proof (cases "msg_type d = Some ''transcript'' \<and> \<not> is_final d \<and> lines st \<noteq> []")
    case True
    then obtain ys y where ls: "lines st = ys @ [y]"
      by (metis append_butlast_last_id)
    from True show ?thesis
      by (simp add: Parsed deliver_def ws_onmessage_def interim_update_def ls)
  next
    case False
    then show ?thesis
      by (auto simp add: Parsed deliver_def ws_onmessage_def interim_update_def final_update_def)
  qed
qed (simp_all add: deliver_def ws_onmessage_def)

text \<open>
  When every result carries an \<open>isFinal\<close> equal to its \<open>is_final\<close>, the scenario of
  the specification comes out as described: one closed entry, nothing open.
\<close>

lemma scenario_with_flag:
  "lines (run App_init [Parsed (transcript False False ''Hel''),
                        Parsed (transcript False False ''Hello''),
                        Parsed (transcript True True ''Hello there'')]) =
     [transcript True True ''Hello there'']"
  by (simp add: run_def deliver_def ws_onmessage_def App_init_def transcript_def
        interim_update_def final_update_def)

text \<open>
  Claim C1, evaluated on results that carry \<open>is_final\<close> and no \<open>isFinal\<close> property
  (the shape the branch test reads). After interim \<open>Hel\<close>, interim \<open>Hello\<close> and
  final \<open>Hello there\<close> the list holds the final result alone, but its \<open>isFinal\<close> is
  falsy, so the handler still treats it as the open interim entry: the next interim
  result overwrites it instead of opening a new entry.
\<close>

theorem C1_final_result_left_open:
  "lines (run App_init [Parsed (transcript False False ''Hel''),
                        Parsed (transcript False False ''Hello''),
                        Parsed (transcript True False ''Hello there'')]) =
     [transcript True False ''Hello there''] \<and>
   \<not> isFinal (last (lines (run App_init [Parsed (transcript False False ''Hel''),
                                          Parsed (transcript False False ''Hello''),
                                          Parsed (transcript True False ''Hello there'')]))) \<and>
   lines (run App_init [Parsed (transcript False False ''Hel''),
                        Parsed (transcript False False ''Hello''),
                        Parsed (transcript True False ''Hello there''),
                        Parsed (transcript False False ''How'')]) =
     [transcript False False ''How'']"
  by (simp add: run_def deliver_def ws_onmessage_def App_init_def transcript_def
        interim_update_def final_update_def)

text \<open>
  Claim C3, evaluated on the same kind of result. A final result \<open>first\<close> is appended;
  the next final result removes it, because the filter keeps only entries with a truthy
  \<open>isFinal\<close>; an interim result that follows a final one overwrites it.
\<close>

theorem C3_final_entry_removed:
  "lines (run App_init [Parsed (transcript True False ''first'')]) =
     [transcript True False ''first''] \<and>
   lines (run App_init [Parsed (transcript True False ''first''),
                        Parsed (transcript True False ''second'')]) =
     [transcript True False ''second''] \<and>
   lines (run App_init [Parsed (transcript True False ''first''),
                        Parsed (transcript False False ''sec'')]) =
     [transcript False False ''sec'']"
  by (simp add: run_def deliver_def ws_onmessage_def App_init_def transcript_def
        interim_update_def final_update_def)

section \<open>The retained summary\<close>

lemma summaries_append: "summaries (ps @ qs) = summaries ps @ summaries qs"
  by (induction ps rule: summaries.induct) simp_all

lemma deliver_currentSummary:
  "currentSummary (deliver st p) =
     (case summaries [p] of [] \<Rightarrow> currentSummary st | d # ds \<Rightarrow> Some d)"
  by (cases p) (simp_all add: deliver_def ws_onmessage_def)

text \<open>
  Claim C8. After any sequence of frames the retained summary is the last summary
  frame of the sequence (whatever was retained before is replaced); if the sequence
  holds no summary frame the retained summary is what it was.
\<close>

theorem C8_latest_summary_retained:
  "currentSummary (run st ps) =
     (case rev (summaries ps) of [] \<Rightarrow> currentSummary st | d # ds \<Rightarrow> Some d)"
proof (induction ps rule: rev_induct)
  case Nil
  show ?case by (simp add: run_def)
next
  case (snoc p ps)
  have step: "currentSummary (run st (ps @ [p])) =
      (case summaries [p] of [] \<Rightarrow> currentSummary (run st ps) | d # ds \<Rightarrow> Some d)"
    by (simp add: run_snoc deliver_currentSummary)
  show ?case
  proof (cases p)
    case (Parsed d)
    with snoc step show ?thesis
      by (simp add: summaries_append)
  next
    case Unparsable
    with snoc step show ?thesis
      by (simp add: summaries_append)
  next
    case JsonNull
    with snoc step show ?thesis
      by (simp add: summaries_append)
  qed
qed

theorem C8_witness:
  "currentSummary
     (run App_init
        [Parsed \<lparr>msg_type = Some ''summary'', is_final = False, isFinal = False,
                 msg_text = ''first'', speaker = '''', timestamp = ''10:00''\<rparr>,
         Parsed (transcript False False ''Hello''),
         Parsed \<lparr>msg_type = Some ''summary'', is_final = False, isFinal = False,
                 msg_text = ''second'', speaker = '''', timestamp = ''10:30''\<rparr>,
         JsonNull]) =
     Some \<lparr>msg_type = Some ''summary'', is_final = False, isFinal = False,
           msg_text = ''second'', speaker = '''', timestamp = ''10:30''\<rparr>"
  using C8_latest_summary_retained
          [of App_init
              "[Parsed \<lparr>msg_type = Some ''summary'', is_final = False, isFinal = False,
                        msg_text = ''first'', speaker = '''', timestamp = ''10:00''\<rparr>,
                Parsed (transcript False False ''Hello''),
                Parsed \<lparr>msg_type = Some ''summary'', is_final = False, isFinal = False,
                        msg_text = ''second'', speaker = '''', timestamp = ''10:30''\<rparr>,
                JsonNull]"]
  by (simp add: transcript_def)

section \<open>The setup message\<close>

text \<open>
  Claim C7 as stated fails: the object sent on open has the members \<open>type\<close> and
  \<open>speakers\<close>, and \<open>speakers\<close> has the members \<open>panelist\<close> and \<open>candidate\<close>.
  No member holds a summarization interval.
\<close>

theorem C7_no_interval_in_setup_message:
  "map fst (members (setup_message \<lparr>panelist = ''Ann'', candidate = ''Bob''\<rparr>)) =
     [''type'', ''speakers''] \<and>
   map_of (members (setup_message \<lparr>panelist = ''Ann'', candidate = ''Bob''\<rparr>)) ''speakers'' =
     Some (JObject [(''panelist'', JString ''Ann''), (''candidate'', JString ''Bob'')])"
  by (simp add: setup_message_def)

text \<open>
  Claim C7, amended. When the socket opens, exactly one text is sent: the serialised
  object \<open>{type: "setup", speakers: {panelist, candidate}}\<close> with the two speaker
  names of the session, and with no other member.
\<close>

theorem C7_setup_message_on_open:
  "ws_onopen JSON_stringify sp \<lparr>readyState = 1, sent = []\<rparr> =
     Inr \<lparr>readyState = 1, sent = [JSON_stringify (setup_message sp)]\<rparr> \<and>
   members (setup_message sp) =
     [(''type'', JString ''setup''),
      (''speakers'', JObject [(''panelist'', JString (panelist sp)),
                              (''candidate'', JString (candidate sp))])]"
  by (simp add: ws_onopen_def ws_send_def setup_message_def)

section \<open>Audio chunks and the state of the socket\<close>

text \<open>
  The handler never throws, whatever the state of the socket and the serialiser: the
  guard keeps \<open>send\<close> away from a connecting socket. In state 1 it sends one text; in
  every other state it leaves the socket as it is, and nothing is queued.
\<close>

lemma port_onmessage_guard:
  "port_onmessage JSON_stringify c ws =
     Inr (if readyState ws = 1
          then ws\<lparr>sent := sent ws @ [JSON_stringify (audio_message c)]\<rparr>
          else ws)"
  by (simp add: port_onmessage_def ws_send_def)

lemma arrive_sent:
  "sent (arrive JSON_stringify ws a) =
     sent ws @ (if fst a = 1 then [JSON_stringify (audio_message (snd a))] else [])"
  by (simp add: arrive_def port_onmessage_def ws_send_def)

text \<open>
  The texts sent for a sequence of chunks are those of the chunks that arrived while
  \<open>readyState\<close> was 1, in arrival order, each once.
\<close>

lemma arrivals_sent:
  "sent (foldl (arrive JSON_stringify) ws arrivals) =
     sent ws @ map (\<lambda>a. JSON_stringify (audio_message (snd a)))
                   (filter (\<lambda>a. fst a = 1) arrivals)"
proof (induction arrivals arbitrary: ws)
  case Nil
  show ?case by simp
next
  case (Cons a arrivals)
  show ?case
    by (simp add: Cons.IH arrive_sent)
qed

text \<open>
  The text \<open>JSON.stringify\<close> makes of a chunk does not depend on its samples: the
  \<open>data\<close> member is always written \<open>{}\<close>.
\<close>

lemma serialised_without_samples:
  "SerializeJSONProperty (audio_message (c\<lparr>audio := b\<rparr>)) =
   SerializeJSONProperty (audio_message c)"
  by (simp add: audio_message_def)

text \<open>
  Claim C10, evaluated on two frames that arrive while the socket is open. For the frame
  with the samples 1, 2, 3 the handler sends the text
  \<open>{"type":"audio","source":"mic","data":{}}\<close>; for the frame with the samples
  4, 5, 6 it sends the same text. The samples of a frame are not in what is sent, so
  the frame does not go over the channel although \<open>readyState\<close> is 1.
\<close>

theorem C10_samples_not_sent:
  "port_onmessage SerializeJSONProperty
     \<lparr>chunk_type = ''audio'', source = ''mic'', audio = [1, 2, 3]\<rparr>
     \<lparr>readyState = 1, sent = []\<rparr> =
     Inr \<lparr>readyState = 1,
          sent = [''{\"type\":\"audio\",\"source\":\"mic\",\"data\":{}}'']\<rparr> \<and>
   port_onmessage SerializeJSONProperty
     \<lparr>chunk_type = ''audio'', source = ''mic'', audio = [4, 5, 6]\<rparr>
     \<lparr>readyState = 1, sent = []\<rparr> =
     Inr \<lparr>readyState = 1,
          sent = [''{\"type\":\"audio\",\"source\":\"mic\",\"data\":{}}'']\<rparr>"
  by (simp add: port_onmessage_def ws_send_def audio_message_def
        QuoteJSONString_def escape_char_def)

end
